theory Spec2Isabelle
  imports Complex_Main
begin

section \<open>Python strings\<close>

text \<open>
  \<open>inst.query\<close> decodes what the instrument sends as ASCII, so a Python \<open>str\<close> is
  modelled as a \<open>string\<close>, a list of characters, and the character classes below are
  those of ASCII. The three string methods the program uses are \<open>str.strip()\<close>,
  \<open>str.split(",")\<close> and \<open>str.replace("V", "")\<close>.
\<close>

definition is_space :: "char \<Rightarrow> bool" where
  \<comment> \<open>the ASCII characters for which \<open>str.isspace\<close> holds: tab, line feed, vertical tab,
      form feed, carriage return, the four separators 0x1C..0x1F and the blank\<close>
  "is_space c \<longleftrightarrow>
     c \<in> set [CHR 0x09, CHR 0x0A, CHR 0x0B, CHR 0x0C, CHR 0x0D,
                CHR 0x1C, CHR 0x1D, CHR 0x1E, CHR 0x1F, CHR 0x20]"

definition strip :: "string \<Rightarrow> string" where
  \<comment> \<open>\<open>s.strip()\<close>: leading and trailing whitespace removed\<close>
  "strip s = rev (dropWhile is_space (rev (dropWhile is_space s)))"

fun split :: "char \<Rightarrow> string \<Rightarrow> string list" where
  \<comment> \<open>\<open>s.split(sep)\<close> for a one-character separator: every occurrence separates, and
      the result always has at least one element\<close>
  "split sep [] = [[]]"
| "split sep (c # cs) =
     (if c = sep then [] # split sep cs
      else (case split sep cs of
              [] \<Rightarrow> [[c]]
            | w # ws \<Rightarrow> (c # w) # ws))"

definition replace_V :: "string \<Rightarrow> string" where
  \<comment> \<open>\<open>s.replace("V", "")\<close>: every occurrence of the capital letter is removed\<close>
  "replace_V s = filter (\<lambda>c. c \<noteq> CHR ''V'') s"

section \<open>Exceptions\<close>

text \<open>
  The exceptions that the program raises, handles or can meet. \<open>OtherException\<close> stands
  for any further subclass of \<open>Exception\<close>. \<open>KeyboardInterrupt\<close>, \<open>SystemExit\<close> and
  \<open>GeneratorExit\<close> are the exceptions of Python that are not an \<open>Exception\<close>: a handler
  \<open>except Exception\<close> does not take them.
\<close>

datatype py_error =
    IndexError | ValueError | ZeroDivisionError | VisaIOError
  | UnboundLocalError | OtherException
  | KeyboardInterrupt | SystemExit | GeneratorExit

definition is_exception :: "py_error \<Rightarrow> bool" where
  \<comment> \<open>\<open>isinstance(e, Exception)\<close>\<close>
  "is_exception e =
     (case e of
        KeyboardInterrupt \<Rightarrow> False
      | SystemExit \<Rightarrow> False
      | GeneratorExit \<Rightarrow> False
      | _ \<Rightarrow> True)"

section \<open>Python floats\<close>

text \<open>
  A Python \<open>float\<close> is an IEEE 754 binary64 number. A finite one is kept as its sign
  (\<open>True\<close> for negative) and the exact value of its magnitude; the two zeros
  are \<open>Finite False 0\<close> and \<open>Finite True 0\<close>.
\<close>

datatype pyfloat = Finite bool real | Infinity bool | NaN

fun bit_length :: "nat \<Rightarrow> nat" where
  "bit_length n = (if n = 0 then 0 else Suc (bit_length (n div 2)))"

declare bit_length.simps [simp del]

definition pow2 :: "int \<Rightarrow> real" where
  "pow2 e = (if 0 \<le> e then 2 ^ nat e else 1 / 2 ^ nat (- e))"

definition pow10 :: "int \<Rightarrow> real" where
  "pow10 e = (if 0 \<le> e then 10 ^ nat e else 1 / 10 ^ nat (- e))"

definition ilog2 :: "real \<Rightarrow> int" where
  \<comment> \<open>for \<open>0 < q\<close>, the exponent \<open>e\<close> with \<open>2^e \<le> q < 2^(e+1)\<close>\<close>
  "ilog2 q = (if 1 \<le> q then int (bit_length (nat \<lfloor>q\<rfloor>)) - 1
              else - int (bit_length (nat (\<lceil>1 / q\<rceil> - 1))))"

definition round_half_even :: "real \<Rightarrow> int" where
  "round_half_even x =
     (let f = \<lfloor>x\<rfloor>; d = x - of_int f
      in if d < 1 / 2 then f
         else if 1 / 2 < d then f + 1
         else if even f then f else f + 1)"

definition round64 :: "bool \<Rightarrow> real \<Rightarrow> pyfloat" where
  \<comment> \<open>the binary64 number nearest to the magnitude \<open>q \<ge> 0\<close>, ties to even: 53 significant
      bits, least exponent -1022 (below it the spacing stays \<open>2^-1074\<close>), and infinity
      from \<open>2^1024\<close> on\<close>
  "round64 s q =
     (if q = 0 then Finite s 0
      else let e = max (ilog2 q) (- 1022);
               u = pow2 (e - 52);
               r = of_int (round_half_even (q / u)) * u
           in if 2 ^ 1024 \<le> r then Infinity s else Finite s r)"

definition is_zero :: "pyfloat \<Rightarrow> bool" where
  \<comment> \<open>\<open>x == 0\<close>: both zeros compare equal to zero\<close>
  "is_zero x = (case x of Finite s m \<Rightarrow> m = 0 | _ \<Rightarrow> False)"

fun fmul :: "pyfloat \<Rightarrow> pyfloat \<Rightarrow> pyfloat" where
  \<comment> \<open>\<open>x * y\<close> on floats: never raises\<close>
  "fmul NaN y = NaN"
| "fmul x NaN = NaN"
| "fmul (Infinity s) (Infinity t) = Infinity (s \<noteq> t)"
| "fmul (Infinity s) (Finite t b) = (if b = 0 then NaN else Infinity (s \<noteq> t))"
| "fmul (Finite s a) (Infinity t) = (if a = 0 then NaN else Infinity (s \<noteq> t))"
| "fmul (Finite s a) (Finite t b) = round64 (s \<noteq> t) (a * b)"

fun fdiv_ieee :: "pyfloat \<Rightarrow> pyfloat \<Rightarrow> pyfloat" where
  \<comment> \<open>the quotient for a divisor that is not zero\<close>
  "fdiv_ieee NaN y = NaN"
| "fdiv_ieee x NaN = NaN"
| "fdiv_ieee (Infinity s) (Infinity t) = NaN"
| "fdiv_ieee (Infinity s) (Finite t b) = Infinity (s \<noteq> t)"
| "fdiv_ieee (Finite s a) (Infinity t) = Finite (s \<noteq> t) 0"
| "fdiv_ieee (Finite s a) (Finite t b) = round64 (s \<noteq> t) (a / b)"

definition fdiv :: "pyfloat \<Rightarrow> pyfloat \<Rightarrow> py_error + pyfloat" where
  \<comment> \<open>\<open>x / y\<close> on floats: a zero divisor raises, whatever the dividend\<close>
  "fdiv x y = (if is_zero y then Inl ZeroDivisionError else Inr (fdiv_ieee x y))"

subsection \<open>The text accepted by \<open>float(s)\<close>\<close>

text \<open>
  \<open>float(s)\<close> strips whitespace, accepts single underscores between digits, an optional
  sign, and then either \<open>inf\<close>, \<open>infinity\<close> or \<open>nan\<close> in any case, or a decimal number
  with an optional exponent. Anything else raises \<open>ValueError\<close>, here \<open>None\<close>. The value
  is the decimal number rounded to binary64.
\<close>

definition is_digit :: "char \<Rightarrow> bool" where
  "is_digit c \<longleftrightarrow> c \<in> set ''0123456789''"

definition digit_val :: "char \<Rightarrow> nat" where
  "digit_val c = of_char c - 48"

definition digits_val :: "string \<Rightarrow> nat" where
  "digits_val ds = foldl (\<lambda>n c. 10 * n + digit_val c) 0 ds"

fun strip_underscores :: "char \<Rightarrow> string \<Rightarrow> string option" where
  \<comment> \<open>an underscore must follow a digit and be followed by a digit; \<open>prev\<close> is the
      character before\<close>
  "strip_underscores prev [] = (if prev = CHR ''_'' then None else Some [])"
| "strip_underscores prev (c # cs) =
     (if c = CHR ''_'' then
        (if is_digit prev then strip_underscores c cs else None)
      else if prev = CHR ''_'' \<and> \<not> is_digit c then None
      else map_option ((#) c) (strip_underscores c cs))"

definition parse_sign :: "string \<Rightarrow> bool \<times> string" where
  "parse_sign s =
     (case s of
        [] \<Rightarrow> (False, s)
      | c # r \<Rightarrow> if c = CHR ''-'' then (True, r)
                 else if c = CHR ''+'' then (False, r)
                 else (False, s))"

definition lower :: "char \<Rightarrow> char" where
  \<comment> \<open>ASCII lower case\<close>
  "lower c =
     (case map_of (zip ''ABCDEFGHIJKLMNOPQRSTUVWXYZ'' ''abcdefghijklmnopqrstuvwxyz'') c of
        None \<Rightarrow> c
      | Some d \<Rightarrow> d)"

definition parse_number :: "string \<Rightarrow> (nat \<times> int) option" where
  \<comment> \<open>digits, an optional point and digits (one digit at least), an optional exponent;
      the result is the digit string's value and the power of ten to scale it by\<close>
  "parse_number r =
     (let ip = takeWhile is_digit r;
          r1 = dropWhile is_digit r;
          fp = (case r1 of [] \<Rightarrow> []
                | c # t \<Rightarrow> if c = CHR ''.'' then takeWhile is_digit t else []);
          r2 = (case r1 of [] \<Rightarrow> []
                | c # t \<Rightarrow> if c = CHR ''.'' then dropWhile is_digit t else r1)
      in if ip = [] \<and> fp = [] then None
         else (case r2 of
                 [] \<Rightarrow> Some (digits_val (ip @ fp), - int (length fp))
               | c # r3 \<Rightarrow>
                   if c = CHR ''e'' \<or> c = CHR ''E'' then
                     (let es = fst (parse_sign r3);
                          r4 = snd (parse_sign r3);
                          ed = takeWhile is_digit r4;
                          r5 = dropWhile is_digit r4
                      in if ed = [] \<or> r5 \<noteq> [] then None
                         else Some (digits_val (ip @ fp),
                                    (if es then - int (digits_val ed) else int (digits_val ed))
                                      - int (length fp)))
                   else None))"

definition parse_float :: "string \<Rightarrow> pyfloat option" where
  "parse_float u =
     (let sg = fst (parse_sign u); r = snd (parse_sign u)
      in if map lower r = ''inf'' \<or> map lower r = ''infinity'' then Some (Infinity sg)
         else if map lower r = ''nan'' then Some NaN
         else (case parse_number r of
                 None \<Rightarrow> None
               | Some (m, e) \<Rightarrow> Some (round64 sg (of_nat m * pow10 e))))"

definition is_float_space :: "char \<Rightarrow> bool" where
  \<comment> \<open>the whitespace that \<open>float\<close> skips around an ASCII text: of the characters of
      \<open>is_space\<close>, the separators 0x1C..0x1F are not among them\<close>
  "is_float_space c \<longleftrightarrow>
     c \<in> set [CHR 0x09, CHR 0x0A, CHR 0x0B, CHR 0x0C, CHR 0x0D, CHR 0x20]"

definition float_strip :: "string \<Rightarrow> string" where
  "float_strip s = rev (dropWhile is_float_space (rev (dropWhile is_float_space s)))"

definition py_float :: "string \<Rightarrow> pyfloat option" where
  \<comment> \<open>\<open>float(s)\<close>; \<open>None\<close> is \<open>ValueError\<close>\<close>
  "py_float s =
     (case strip_underscores (CHR 0x00) (float_strip s) of
        None \<Rightarrow> None
      | Some u \<Rightarrow> parse_float u)"

section \<open>Parsing a measurement response\<close>

text \<open>
  The expression \<open>float(resp.split(",")[1].replace("V", ""))\<close> of
  \<open>calculate_resistance\<close>, \<open>continuous_dc_average\<close> and \<open>continuous_measurement\<close>.
  Indexing a list shorter than two raises \<open>IndexError\<close>, a text that \<open>float\<close> rejects
  \<open>ValueError\<close>.
\<close>

definition numeric_segment :: "string \<Rightarrow> py_error + string" where
  \<comment> \<open>\<open>resp.split(",")[1].replace("V", "")\<close>\<close>
  "numeric_segment resp =
     (case split (CHR '','') resp of
        a # b # rest \<Rightarrow> Inr (replace_V b)
      | _ \<Rightarrow> Inl IndexError)"

definition parse_volts :: "string \<Rightarrow> py_error + pyfloat" where
  "parse_volts resp =
     (case numeric_segment resp of
        Inl e \<Rightarrow> Inl e
      | Inr seg \<Rightarrow> (case py_float seg of None \<Rightarrow> Inl ValueError | Some x \<Rightarrow> Inr x))"

definition to_millivolts :: "pyfloat \<Rightarrow> pyfloat" where
  \<comment> \<open>\<open>x * 1000\<close>\<close>
  "to_millivolts x = fmul x (Finite False 1000)"

definition R :: pyfloat where
  \<comment> \<open>the reference resistance \<open>R = 10.0\<close> of \<open>continuous_measurement\<close>\<close>
  "R = Finite False 10"

definition compute_resistance :: "pyfloat \<Rightarrow> pyfloat \<Rightarrow> pyfloat \<Rightarrow> py_error + pyfloat" where
  \<comment> \<open>\<open>(x / y) * r\<close>\<close>
  "compute_resistance x y r =
     (case fdiv x y of
        Inl e \<Rightarrow> Inl e
      | Inr q \<Rightarrow> Inr (fmul q r))"

definition measure :: "string \<Rightarrow> string \<Rightarrow> string \<Rightarrow> string \<Rightarrow>
    py_error + pyfloat \<times> pyfloat \<times> pyfloat \<times> pyfloat \<times> pyfloat" where
  \<comment> \<open>the body of the inner \<open>try\<close> of \<open>continuous_measurement\<close>: four values in
      millivolts, then the sensor resistance; the first exception ends it\<close>
  "measure rms_c1 mean_c1 rms_c2 mean_c2 =
     (case parse_volts rms_c1 of Inl e \<Rightarrow> Inl e | Inr a \<Rightarrow>
      (case parse_volts mean_c1 of Inl e \<Rightarrow> Inl e | Inr b \<Rightarrow>
      (case parse_volts rms_c2 of Inl e \<Rightarrow> Inl e | Inr c \<Rightarrow>
      (case parse_volts mean_c2 of Inl e \<Rightarrow> Inl e | Inr d \<Rightarrow>
         (let rms_c1_mv = to_millivolts a;
              mean_c1_mv = to_millivolts b;
              rms_c2_mv = to_millivolts c;
              mean_c2_mv = to_millivolts d
          in case compute_resistance mean_c1_mv mean_c2_mv R of
               Inl e \<Rightarrow> Inl e
             | Inr r_sensor \<Rightarrow>
                 Inr (rms_c1_mv, mean_c1_mv, rms_c2_mv, mean_c2_mv, r_sensor))))))"

section \<open>The instrument session and the program's effects\<close>

text \<open>
  The instrument is a \<open>device\<close>: what the n-th call of \<open>inst.write\<close> or \<open>inst.query\<close>
  does, either an answer (ignored by a write) or an exception. An interrupt from the
  keyboard is an exception that arrives while such a call is waiting. The program's own
  state is the number of calls made, the commands sent, the lines printed (kept as
  values, not as formatted text), the time slept in milliseconds and the number of
  \<open>inst.close()\<close> calls.
\<close>

datatype reply = Answer string | Raise py_error

type_synonym device = "nat \<Rightarrow> reply"

datatype line =
    Calculated_Resistance pyfloat
  | Mean pyfloat
  | Unexpected_Response string string string string
  | Readings pyfloat pyfloat pyfloat pyfloat pyfloat
  | Stopped_By_User
  | Visa_IO_Error
  | General_Error py_error

record state =
  calls :: nat
  sent :: "string list"
  printed :: "line list"
  slept :: nat
  closed :: nat

definition inst_call :: "device \<Rightarrow> string \<Rightarrow> state \<Rightarrow> (py_error + string) \<times> state" where
  \<comment> \<open>\<open>inst.write(cmd)\<close> and \<open>inst.query(cmd)\<close>\<close>
  "inst_call dev cmd s =
     (let s' = s\<lparr>calls := Suc (calls s), sent := sent s @ [cmd]\<rparr>
      in case dev (calls s) of
           Answer a \<Rightarrow> (Inr a, s')
         | Raise e \<Rightarrow> (Inl e, s'))"

definition and_then ::
  "(state \<Rightarrow> (py_error + 'a) \<times> state) \<Rightarrow> ('a \<Rightarrow> state \<Rightarrow> (py_error + 'b) \<times> state) \<Rightarrow>
   state \<Rightarrow> (py_error + 'b) \<times> state" where
  \<comment> \<open>one statement after another: an exception skips what follows\<close>
  "and_then m f s =
     (case m s of
        (Inl e, s') \<Rightarrow> (Inl e, s')
      | (Inr a, s') \<Rightarrow> f a s')"

definition print :: "line \<Rightarrow> state \<Rightarrow> state" where
  "print l s = s\<lparr>printed := printed s @ [l]\<rparr>"

definition sleep :: "nat \<Rightarrow> state \<Rightarrow> state" where
  "sleep ms s = s\<lparr>slept := slept s + ms\<rparr>"

definition close :: "state \<Rightarrow> state" where
  "close s = s\<lparr>closed := Suc (closed s)\<rparr>"

definition report :: "py_error \<Rightarrow> state \<Rightarrow> (py_error + unit) \<times> state" where
  \<comment> \<open>the handlers \<open>except KeyboardInterrupt\<close>, \<open>except pyvisa.VisaIOError\<close> and
      \<open>except Exception\<close> of the two continuous functions, in this order; an exception
      that none of them takes goes on to the caller\<close>
  "report e s =
     (if e = KeyboardInterrupt then (Inr (), print Stopped_By_User s)
      else if e = VisaIOError then (Inr (), print Visa_IO_Error s)
      else if is_exception e then (Inr (), print (General_Error e) s)
      else (Inl e, s))"

definition report_main :: "py_error \<Rightarrow> state \<Rightarrow> (py_error + unit) \<times> state" where
  \<comment> \<open>the handlers \<open>except pyvisa.VisaIOError\<close> and \<open>except Exception\<close> of \<open>main\<close>\<close>
  "report_main e s =
     (if e = VisaIOError then (Inr (), print Visa_IO_Error s)
      else if is_exception e then (Inr (), print (General_Error e) s)
      else (Inl e, s))"

subsection \<open>\<open>calculate_resistance\<close>\<close>

definition calculate_resistance_body ::
  "device \<Rightarrow> pyfloat \<Rightarrow> state \<Rightarrow> (py_error + pyfloat) \<times> state" where
  \<comment> \<open>the body of the outer \<open>try\<close>\<close>
  "calculate_resistance_body dev current =
     (\<lambda>s. if is_zero current then (Inl ValueError, s)
          else and_then (inst_call dev ''PACU MEAN,C1'') (\<lambda>_ s.
               and_then (inst_call dev ''C1:PAVA? MEAN'') (\<lambda>voltage_mean s.
                 (case parse_volts (strip voltage_mean) of
                    Inl e \<Rightarrow>
                      (if e = IndexError \<or> e = ValueError then (Inl ValueError, s)
                       else (Inl e, s))
                  | Inr voltage_value \<Rightarrow>
                      (case fdiv voltage_value current of
                         Inl e \<Rightarrow> (Inl e, s)
                       | Inr resistance \<Rightarrow>
                           (Inr resistance, print (Calculated_Resistance resistance) s))))
               (sleep 1000 s)) s)"

definition calculate_resistance ::
  "device \<Rightarrow> pyfloat \<Rightarrow> state \<Rightarrow> (py_error + pyfloat option) \<times> state" where
  \<comment> \<open>\<open>Inr (Some r)\<close> is \<open>return resistance\<close>, \<open>Inr None\<close> the \<open>None\<close> of a function that
      ends without \<open>return\<close>, \<open>Inl e\<close> an exception that reaches the caller. The handlers
      are \<open>except pyvisa.VisaIOError\<close> and \<open>except Exception\<close>.\<close>
  "calculate_resistance dev current s =
     (case calculate_resistance_body dev current s of
        (Inr resistance, s') \<Rightarrow> (Inr (Some resistance), s')
      | (Inl e, s') \<Rightarrow>
          (if e = VisaIOError then (Inr None, print Visa_IO_Error s')
           else if is_exception e then (Inr None, print (General_Error e) s')
           else (Inl e, s')))"

subsection \<open>\<open>continuous_dc_average\<close>\<close>

definition dc_average_iteration :: "device \<Rightarrow> state \<Rightarrow> (py_error + unit) \<times> state" where
  \<comment> \<open>the body of \<open>while True\<close>\<close>
  "dc_average_iteration dev =
     and_then (inst_call dev ''C1:PAVA? MEAN'') (\<lambda>voltage_mean s.
       (case parse_volts (strip voltage_mean) of
          Inl e \<Rightarrow> (Inl e, s)
        | Inr v \<Rightarrow> (Inr (), sleep 100 (print (Mean (to_millivolts v)) s))))"

partial_function (option) dc_average_loop :: "device \<Rightarrow> state \<Rightarrow> (py_error \<times> state) option" where
  \<comment> \<open>\<open>while True\<close>: only an exception ends it\<close>
  "dc_average_loop dev s =
     (case dc_average_iteration dev s of
        (Inl e, s') \<Rightarrow> Some (e, s')
      | (Inr u, s') \<Rightarrow> dc_average_loop dev s')"

definition continuous_dc_average ::
  "device \<Rightarrow> state \<Rightarrow> ((py_error + unit) \<times> state) option" where
  \<comment> \<open>\<open>None\<close>: the function never returns\<close>
  "continuous_dc_average dev s =
     (case inst_call dev ''PACU MEAN,C1'' s of
        (Inl e, s') \<Rightarrow> Some (report e s')
      | (Inr u, s') \<Rightarrow>
          (case dc_average_loop dev s' of
             None \<Rightarrow> None
           | Some (e, s'') \<Rightarrow> Some (report e s'')))"

subsection \<open>\<open>continuous_measurement\<close>\<close>

definition iteration :: "device \<Rightarrow> state \<Rightarrow> (py_error + unit) \<times> state" where
  \<comment> \<open>the body of \<open>while True\<close>; \<open>Inr ()\<close> goes on to the next iteration, after the
      printed readings and the pause or after \<open>continue\<close>\<close>
  "iteration dev =
     and_then (inst_call dev ''C1:PAVA? RMS'') (\<lambda>rms_c1.
     and_then (inst_call dev ''C1:PAVA? MEAN'') (\<lambda>mean_c1.
     and_then (inst_call dev ''C2:PAVA? RMS'') (\<lambda>rms_c2.
     and_then (inst_call dev ''C2:PAVA? MEAN'') (\<lambda>mean_c2 s.
       (case measure (strip rms_c1) (strip mean_c1) (strip rms_c2) (strip mean_c2) of
          Inl e \<Rightarrow>
            (if e = IndexError \<or> e = ValueError then
               (Inr (), print (Unexpected_Response (strip rms_c1) (strip mean_c1)
                                 (strip rms_c2) (strip mean_c2)) s)
             else (Inl e, s))
        | Inr (rms_c1_mv, mean_c1_mv, rms_c2_mv, mean_c2_mv, r_sensor) \<Rightarrow>
            (Inr (), sleep 1000 (print (Readings rms_c1_mv mean_c1_mv rms_c2_mv
                                          mean_c2_mv r_sensor) s)))))))"

partial_function (option) poll_loop :: "device \<Rightarrow> state \<Rightarrow> (py_error \<times> state) option" where
  \<comment> \<open>\<open>while True\<close>: only an exception ends it\<close>
  "poll_loop dev s =
     (case iteration dev s of
        (Inl e, s') \<Rightarrow> Some (e, s')
      | (Inr u, s') \<Rightarrow> poll_loop dev s')"

definition set_up :: "device \<Rightarrow> state \<Rightarrow> (py_error + string) \<times> state" where
  "set_up dev =
     and_then (inst_call dev ''PACU RMS,C1'') (\<lambda>_.
     and_then (inst_call dev ''PACU MEAN,C1'') (\<lambda>_.
     and_then (inst_call dev ''PACU RMS,C2'') (\<lambda>_.
       inst_call dev ''PACU MEAN,C2'')))"

definition continuous_measurement ::
  "device \<Rightarrow> state \<Rightarrow> ((py_error + unit) \<times> state) option" where
  \<comment> \<open>\<open>None\<close>: the function never returns\<close>
  "continuous_measurement dev s =
     (case set_up dev s of
        (Inl e, s') \<Rightarrow> Some (report e s')
      | (Inr u, s') \<Rightarrow>
          (case poll_loop dev s' of
             None \<Rightarrow> None
           | Some (e, s'') \<Rightarrow> Some (report e s'')))"

subsection \<open>\<open>main\<close>\<close>

definition main ::
  "py_error option \<Rightarrow> py_error option \<Rightarrow> device \<Rightarrow> state \<Rightarrow> ((py_error + unit) \<times> state) option" where
  \<comment> \<open>\<open>rm_error\<close> is what \<open>pyvisa.ResourceManager\<close> raises, before the \<open>try\<close>;
      \<open>open_error\<close> what \<open>rm.open_resource\<close> raises, which leaves \<open>inst\<close> unbound, so that
      \<open>inst.close()\<close> in the \<open>finally\<close> clause raises \<open>UnboundLocalError\<close> in place of
      whatever was on its way. Setting the timeout and closing are taken not to raise.\<close>
  "main rm_error open_error dev s =
     (case rm_error of
        Some e \<Rightarrow> Some (Inl e, s)
      | None \<Rightarrow>
          (case open_error of
             Some e \<Rightarrow> Some (Inl UnboundLocalError, snd (report_main e s))
           | None \<Rightarrow>
               (case continuous_measurement dev s of
                  None \<Rightarrow> None
                | Some (Inr u, s') \<Rightarrow> Some (Inr (), close s')
                | Some (Inl e, s') \<Rightarrow>
                    Some (fst (report_main e s'), close (snd (report_main e s'))))))"

definition start :: state where
  "start = \<lparr>calls = 0, sent = [], printed = [], slept = 0, closed = 0\<rparr>"

subsection \<open>The parsed measurement as the specification words it\<close>

definition is_letter :: "char \<Rightarrow> bool" where
  "is_letter c \<longleftrightarrow>
     c \<in> set ''ABCDEFGHIJKLMNOPQRSTUVWXYZabcdefghijklmnopqrstuvwxyz''"

definition spec_parsed_measurement :: "string \<Rightarrow> py_error + pyfloat" where
  \<comment> \<open>the text after the first comma, less one trailing unit letter, as a float\<close>
  "spec_parsed_measurement resp =
     (case dropWhile (\<lambda>c. c \<noteq> CHR '','') resp of
        [] \<Rightarrow> Inl IndexError
      | sep # t \<Rightarrow>
          (let t' = (if t \<noteq> [] \<and> is_letter (last t) then butlast t else t)
           in case py_float t' of None \<Rightarrow> Inl ValueError | Some x \<Rightarrow> Inr x))"

definition spec_numeric_segment :: "string \<Rightarrow> string option" where
  \<comment> \<open>the numeric segment in the same words: the text after the first comma, less one
      trailing unit letter; \<open>None\<close> when there is no comma\<close>
  "spec_numeric_segment resp =
     (case dropWhile (\<lambda>c. c \<noteq> CHR '','') resp of
        [] \<Rightarrow> None
      | sep # t \<Rightarrow> Some (if t \<noteq> [] \<and> is_letter (last t) then butlast t else t))"

subsection \<open>Commands and instruments named in the statements below\<close>

definition float_alphabet :: string where
  \<comment> \<open>besides whitespace, the characters that occur in the texts \<open>float\<close> accepts\<close>
  "float_alphabet = ''0123456789+-._eEinftyaINFTYA''"

definition bad_good_interrupted :: device where
  \<comment> \<open>the first answer is malformed, the next seven are half a volt, and Ctrl+C comes
      while the first query of the third pass waits\<close>
  "bad_good_interrupted n =
     (if n = 0 then Answer ''C1,BADVAL''
      else if n = 8 then Raise KeyboardInterrupt
      else Answer ''C1,0.5V'')"



definition set_up_commands :: "string list" where
  \<comment> \<open>what \<open>set_up\<close> sends\<close>
  "set_up_commands = [''PACU RMS,C1'', ''PACU MEAN,C1'', ''PACU RMS,C2'', ''PACU MEAN,C2'']"

definition queries :: "string list" where
  \<comment> \<open>what one \<open>iteration\<close> sends\<close>
  "queries = [''C1:PAVA? RMS'', ''C1:PAVA? MEAN'', ''C2:PAVA? RMS'', ''C2:PAVA? MEAN'']"

definition zero_mean_c2 :: device where
  \<comment> \<open>one volt everywhere, but the first mean voltage of channel 2 (the eighth call,
      after four writes and three queries) is zero\<close>
  "zero_mean_c2 n = (if n = 7 then Answer ''C2,0.0V'' else Answer ''C1,1.0V'')"





definition steady :: device where
  "steady n = Answer ''C1,0.123V''"

definition timeout_in_second_pass :: device where
  \<comment> \<open>half a volt everywhere, but the second query of the second pass times out\<close>
  "timeout_in_second_pass n = (if n = 9 then Raise VisaIOError else Answer ''C1,0.5V'')"

section \<open>Rounding to binary64\<close>

text \<open>
  \<open>ilog2\<close> is the binary exponent, and \<open>round64\<close> of a positive number is either
  infinity or a multiple \<open>m * u\<close> of the spacing \<open>u\<close> at that exponent, with \<open>m\<close> of at
  most 53 bits and at most half a spacing away from the number.
\<close>

lemma bit_length_bounds:
  "0 < n \<Longrightarrow> 2 ^ (bit_length n - 1) \<le> n \<and> n < 2 ^ bit_length n"
proof (induction n rule: bit_length.induct)
  case (1 n)
  show ?case
  proof (cases "n div 2 = 0")
    case True
    with "1.prems" have "n = 1" by presburger
    then show ?thesis by (simp add: bit_length.simps)
  next
    case False
    then have pos: "0 < n div 2" by simp
    from "1.prems" have bl: "bit_length n = Suc (bit_length (n div 2))"
      by (subst bit_length.simps) simp
    from pos have b1: "0 < bit_length (n div 2)"
      by (subst bit_length.simps) simp
    from "1.IH" [OF _ pos] "1.prems"
    have ih: "2 ^ (bit_length (n div 2) - 1) \<le> n div 2" "n div 2 < 2 ^ bit_length (n div 2)"
      by auto
    from b1 have e: "2 ^ bit_length (n div 2) = 2 * 2 ^ (bit_length (n div 2) - 1)"
      by (cases "bit_length (n div 2)") simp_all
    have "(2::nat) ^ (bit_length n - 1) = 2 * 2 ^ (bit_length (n div 2) - 1)"
      using bl e by simp
    also have "\<dots> \<le> 2 * (n div 2)" using ih(1) by simp
    also have "\<dots> \<le> n" by presburger
    finally have lo: "2 ^ (bit_length n - 1) \<le> n" .
    have "n < 2 * (n div 2) + 2" by presburger
    also have "\<dots> \<le> 2 * 2 ^ bit_length (n div 2)" using ih(2) by simp
    finally have "n < 2 ^ bit_length n" using bl by simp
    with lo show ?thesis by simp
  qed
qed

lemma round_half_even_near: "\<bar>x - of_int (round_half_even x)\<bar> \<le> 1 / 2"
  unfolding round_half_even_def Let_def
  by (auto simp: abs_if) linarith+

lemma round_half_even_floor:
  "\<lfloor>x\<rfloor> \<le> round_half_even x \<and> round_half_even x \<le> \<lfloor>x\<rfloor> + 1"
  by (simp add: round_half_even_def Let_def)

lemma pow2_powi: "pow2 e = 2 powi e"
  unfolding pow2_def power_int_def by (simp add: inverse_eq_divide power_one_over)

lemma pow2_pos: "0 < pow2 e"
  by (simp add: pow2_def)

lemma ilog2_bounds:
  assumes "0 < q"
  shows "pow2 (ilog2 q) \<le> q \<and> q < pow2 (ilog2 q + 1)"
proof (cases "1 \<le> q")
  case True
  define n where "n = nat \<lfloor>q\<rfloor>"
  from True have fl: "1 \<le> \<lfloor>q\<rfloor>" by simp
  then have n: "0 < n" and rn: "real n = of_int \<lfloor>q\<rfloor>" by (simp_all add: n_def)
  from bit_length_bounds [OF n]
  have lo: "2 ^ (bit_length n - 1) \<le> n" and hi: "n < 2 ^ bit_length n" by simp_all
  from hi n have b: "0 < bit_length n" by (cases "bit_length n") simp_all
  have il: "ilog2 q = int (bit_length n) - 1"
    using True by (simp add: ilog2_def n_def)
  have p1: "pow2 (ilog2 q) = 2 ^ (bit_length n - 1)"
    using b by (simp add: il pow2_def nat_diff_distrib)
  have p2: "pow2 (ilog2 q + 1) = 2 ^ bit_length n"
    by (simp add: il pow2_def)
  have "(2::real) ^ (bit_length n - 1) \<le> real n"
    using lo by (metis of_nat_le_iff of_nat_numeral of_nat_power)
  also have "\<dots> \<le> q" using rn by simp
  finally have A: "pow2 (ilog2 q) \<le> q" using p1 by simp
  have "q < of_int \<lfloor>q\<rfloor> + 1" by linarith
  also have "\<dots> = real (n + 1)" using rn by simp
  also have "\<dots> \<le> real (2 ^ bit_length n)" using hi by (simp only: of_nat_le_iff; simp)
  finally have "q < pow2 (ilog2 q + 1)" using p2 by simp
  with A show ?thesis by simp
next
  case False
  then have q1: "q < 1" by simp
  define m where "m = nat (\<lceil>1 / q\<rceil> - 1)"
  from assms q1 have inv: "1 < 1 / q" by simp
  then have c2: "2 \<le> \<lceil>1 / q\<rceil>" by linarith
  define k where "k = \<lceil>1 / q\<rceil> - 1"
  from c2 have k1: "1 \<le> k" unfolding k_def by linarith
  have mk: "m = nat k" by (simp add: m_def k_def)
  from k1 have m: "0 < m" unfolding mk by linarith
  from k1 have "real (nat k) = of_int k" by simp
  then have rm: "real m = of_int \<lceil>1 / q\<rceil> - 1" unfolding mk k_def by simp
  from bit_length_bounds [OF m]
  have lo: "2 ^ (bit_length m - 1) \<le> m" and hi: "m < 2 ^ bit_length m" by simp_all
  from hi m have b: "0 < bit_length m" by (cases "bit_length m") simp_all
  have il: "ilog2 q = - int (bit_length m)"
    using False by (simp add: ilog2_def m_def)
  have p1: "pow2 (ilog2 q) = 1 / 2 ^ bit_length m"
    using b by (simp add: il pow2_def)
  have p2: "pow2 (ilog2 q + 1) = 1 / 2 ^ (bit_length m - 1)"
    using b by (auto simp: il pow2_def nat_diff_distrib)
  have "1 / q \<le> of_int \<lceil>1 / q\<rceil>" by linarith
  also have "\<dots> = real (m + 1)" using rm by simp
  also have "\<dots> \<le> real (2 ^ bit_length m)" using hi by (simp only: of_nat_le_iff; simp)
  finally have "1 / q \<le> 2 ^ bit_length m" by simp
  then have "1 \<le> q * 2 ^ bit_length m"
    using assms by (simp add: field_simps)
  then have "1 / 2 ^ bit_length m \<le> q"
    by (simp add: pos_divide_le_eq)
  then have A: "pow2 (ilog2 q) \<le> q"
    unfolding p1 .
  have "(2::real) ^ (bit_length m - 1) \<le> real m"
    using lo by (metis of_nat_le_iff of_nat_numeral of_nat_power)
  also have "\<dots> < 1 / q" using rm by linarith
  finally have "q * 2 ^ (bit_length m - 1) < 1"
    using assms by (simp add: field_simps)
  then have "q < 1 / 2 ^ (bit_length m - 1)"
    by (simp add: pos_less_divide_eq)
  then have "q < pow2 (ilog2 q + 1)"
    unfolding p2 .
  with A show ?thesis by simp
qed

lemma round64_nearest:
  assumes "0 < q" and "u = pow2 (max (ilog2 q) (- 1022) - 52)"
  shows "round64 s q = Infinity s \<or>
         (\<exists>m::int. 0 \<le> m \<and> m \<le> 2 ^ 53 \<and> round64 s q = Finite s (of_int m * u) \<and>
                   \<bar>of_int m * u - q\<bar> \<le> u / 2)"
proof -
  define e where "e = max (ilog2 q) (- 1022)"
  define m where "m = round_half_even (q / u)"
  have u: "u = pow2 (e - 52)" and upos: "0 < u"
    using assms(2) pow2_pos by (simp_all add: e_def)
  have r: "round64 s q = Infinity s \<or> round64 s q = Finite s (of_int m * u)"
    using assms by (auto simp: round64_def Let_def m_def)
  have xpos: "0 < q / u" using assms(1) upos by simp
  then have "0 \<le> \<lfloor>q / u\<rfloor>" by simp
  with round_half_even_floor [of "q / u"] have m0: "0 \<le> m" unfolding m_def by linarith
  have "q < pow2 (ilog2 q + 1)" using ilog2_bounds [OF assms(1)] by simp
  also have "\<dots> \<le> pow2 (e + 1)"
    unfolding pow2_powi by (rule power_int_increasing) (simp_all add: e_def)
  also have "\<dots> = 2 ^ 53 * u"
  proof -
    have "e + 1 = 53 + (e - 52)" by simp
    then have "(2::real) powi (e + 1) = 2 powi (53 + (e - 52))" by (rule arg_cong)
    also have "\<dots> = 2 powi 53 * 2 powi (e - 52)" by (rule power_int_add) simp
    finally show ?thesis by (simp add: u pow2_powi)
  qed
  finally have "q / u < 2 ^ 53" using upos by (simp add: pos_divide_less_eq)
  then have "\<lfloor>q / u\<rfloor> < 2 ^ 53" by (simp add: floor_less_iff)
  with round_half_even_floor [of "q / u"] have m1: "m \<le> 2 ^ 53" unfolding m_def by linarith
  have "\<bar>of_int m * u - q\<bar> = \<bar>of_int m - q / u\<bar> * u"
    using upos by (simp add: abs_mult_pos' [symmetric] field_simps)
  also have "\<dots> \<le> 1 / 2 * u"
    using round_half_even_near [of "q / u"] upos
    by (intro mult_right_mono) (simp_all add: m_def abs_minus_commute)
  finally have "\<bar>of_int m * u - q\<bar> \<le> u / 2" by simp
  with r m0 m1 show ?thesis by auto
qed

section \<open>Properties of the string functions\<close>

lemma split_no_sep: "sep \<notin> set s \<Longrightarrow> split sep s = [s]"
  by (induction s) auto

lemma split_first: "sep \<notin> set a \<Longrightarrow> split sep (a @ sep # r) = a # split sep r"
  by (induction a) auto

lemma numeric_segment_two:
  assumes "CHR '','' \<notin> set a" and "CHR '','' \<notin> set b"
  shows "numeric_segment (a @ '','' @ b) = Inr (replace_V b)"
  using assms by (simp add: numeric_segment_def split_first split_no_sep)

lemma numeric_segment_more:
  assumes "CHR '','' \<notin> set a" and "CHR '','' \<notin> set b"
  shows "numeric_segment (a @ '','' @ b @ '','' @ rest) = Inr (replace_V b)"
  using assms by (simp add: numeric_segment_def split_first)

lemma numeric_segment_none:
  assumes "CHR '','' \<notin> set resp"
  shows "numeric_segment resp = Inl IndexError"
  using assms by (simp add: numeric_segment_def split_no_sep)

lemma replace_V_unit: "CHR ''V'' \<notin> set v \<Longrightarrow> replace_V (v @ ''V'') = v"
  by (auto simp: replace_V_def filter_id_conv)

lemma strip_last:
  assumes "\<not> is_space c"
  shows "strip (a @ [c]) = dropWhile is_space a @ [c]"
proof -
  have "dropWhile is_space (a @ [c]) = dropWhile is_space a @ [c]"
    using assms by (induction a) auto
  then show ?thesis using assms by (simp add: strip_def)
qed

lemma set_strip_subset: "set (strip s) \<subseteq> set s"
proof -
  have "set (strip s) \<subseteq> set (dropWhile is_space s)"
    unfolding strip_def by (metis set_dropWhileD set_rev subsetI)
  also have "\<dots> \<subseteq> set s" by (auto dest: set_dropWhileD)
  finally show ?thesis .
qed

lemma not_space_comma_V:
  "\<not> is_space (CHR '','')" "\<not> is_space (CHR ''V'')"
  "\<not> is_float_space (CHR '','')" "\<not> is_float_space (CHR ''V'')"
  by (simp_all add: is_space_def is_float_space_def)

section \<open>The characters of a text that \<open>float\<close> accepts\<close>

text \<open>
  Neither a comma nor a capital V occurs in a text that \<open>float\<close> accepts: whatever is
  not whitespace, an underscore or a sign is a digit, a point, an exponent letter or a
  letter of \<open>infinity\<close> and \<open>nan\<close>.
\<close>

lemma set_float_strip: "c \<in> set s \<Longrightarrow> is_float_space c \<or> c \<in> set (float_strip s)"
proof -
  assume c: "c \<in> set s"
  let ?t = "dropWhile is_float_space s"
  have "s = takeWhile is_float_space s @ ?t" by simp
  then have "c \<in> set (takeWhile is_float_space s) \<or> c \<in> set ?t"
    using c by (metis Un_iff set_append)
  moreover have "rev ?t = takeWhile is_float_space (rev ?t) @ dropWhile is_float_space (rev ?t)"
    by simp
  then have "set ?t = set (takeWhile is_float_space (rev ?t))
                        \<union> set (dropWhile is_float_space (rev ?t))"
    by (metis set_append set_rev)
  ultimately show ?thesis
    unfolding float_strip_def by (auto dest: set_takeWhileD)
qed

lemma strip_underscores_set:
  "strip_underscores p t = Some u \<Longrightarrow> set t \<subseteq> insert (CHR ''_'') (set u)"
proof (induction t arbitrary: p u)
  case Nil
  then show ?case by simp
next
  case (Cons a t)
  show ?case
  proof (cases "a = CHR ''_''")
    case True
    with Cons.prems have "strip_underscores a t = Some u"
      by (simp split: if_splits)
    from Cons.IH [OF this] True show ?thesis by auto
  next
    case False
    with Cons.prems obtain z where z: "strip_underscores a t = Some z" and u: "u = a # z"
      by (auto split: if_splits)
    from Cons.IH [OF z] u show ?thesis by auto
  qed
qed

lemma parse_sign_set:
  "c \<in> set u \<Longrightarrow> c = CHR ''-'' \<or> c = CHR ''+'' \<or> c \<in> set (snd (parse_sign u))"
  by (auto simp: parse_sign_def split: list.splits)

lemma all_digits: "dropWhile is_digit r = [] \<Longrightarrow> c \<in> set r \<Longrightarrow> is_digit c"
  by simp

lemma digits_then:
  "c \<in> set r \<Longrightarrow> is_digit c \<or> c \<in> set (dropWhile is_digit r)"
  by (metis Un_iff set_append set_takeWhileD takeWhile_dropWhile_id)

lemma exponent_set:
  assumes "dropWhile is_digit (snd (parse_sign r3)) = []" and "c \<in> set r3"
  shows "is_digit c \<or> c = CHR ''+'' \<or> c = CHR ''-''"
  using assms parse_sign_set [of c r3] all_digits by blast

lemma parse_number_set:
  assumes "parse_number r = Some me" and "c \<in> set r"
  shows "is_digit c \<or> c \<in> set ''.eE+-''"
proof -
  define r1 where "r1 = dropWhile is_digit r"
  define r2 where "r2 = (case r1 of [] \<Rightarrow> []
                | c # t \<Rightarrow> if c = CHR ''.'' then dropWhile is_digit t else r1)"
  have a: "is_digit c \<or> c \<in> set r1"
    using assms(2) digits_then unfolding r1_def by blast
  have b: "c \<in> set r1 \<Longrightarrow> is_digit c \<or> c = CHR ''.'' \<or> c \<in> set r2"
    unfolding r2_def using digits_then by (cases r1) (auto split: if_splits)
  have c: "c \<in> set r2 \<Longrightarrow> is_digit c \<or> c \<in> set ''.eE+-''"
  proof (cases r2)
    case Nil
    then show "c \<in> set r2 \<Longrightarrow> ?thesis" by simp
  next
    case (Cons x r3)
    assume cin: "c \<in> set r2"
    from assms(1) Cons have x: "x = CHR ''e'' \<or> x = CHR ''E''"
      and d: "dropWhile is_digit (snd (parse_sign r3)) = []"
      unfolding parse_number_def Let_def r2_def [symmetric] r1_def [symmetric]
      by (auto split: if_splits)
    from cin Cons have "c = x \<or> c \<in> set r3" by auto
    with x exponent_set [OF d] show ?thesis by auto
  qed
  from a b c show ?thesis by auto
qed

lemma lower_comma: "lower (CHR '','') = CHR '',''"
  by (simp add: lower_def)

lemma lower_V: "lower (CHR ''V'') = CHR ''v''"
  by (simp add: lower_def)

lemma parse_float_set:
  assumes "parse_float u = Some x" and "c \<in> set u"
  shows "c \<noteq> CHR '','' \<and> c \<noteq> CHR ''V''"
proof -
  let ?r = "snd (parse_sign u)"
  have s: "c = CHR ''-'' \<or> c = CHR ''+'' \<or> c \<in> set ?r"
    using assms(2) by (rule parse_sign_set)
  have "c \<in> set ?r \<Longrightarrow> ?thesis"
  proof -
    assume cr: "c \<in> set ?r"
    consider (special)
        "map lower ?r = ''inf'' \<or> map lower ?r = ''infinity'' \<or> map lower ?r = ''nan''"
      | (number) me where "parse_number ?r = Some me"
      using assms(1) unfolding parse_float_def Let_def
      by (auto split: if_splits option.splits)
    then show ?thesis
    proof cases
      case special
      from cr have "lower c \<in> set (map lower ?r)" by simp
      with special have "lower c \<in> set ''infinityan''" by auto
      then show ?thesis using lower_comma lower_V by auto
    next
      case number
      from parse_number_set [OF number cr] show ?thesis
        by (auto simp: is_digit_def)
    qed
  qed
  with s show ?thesis by auto
qed

lemma py_float_chars:
  assumes "py_float v = Some x" and "c \<in> set v"
  shows "c \<noteq> CHR '','' \<and> c \<noteq> CHR ''V''"
proof -
  from assms(1) obtain u where u: "strip_underscores (CHR 0x00) (float_strip v) = Some u"
    and p: "parse_float u = Some x"
    unfolding py_float_def by (auto split: option.splits)
  from set_float_strip [OF assms(2)] have "is_float_space c \<or> c \<in> set (float_strip v)" .
  then have "is_float_space c \<or> c = CHR ''_'' \<or> c \<in> set u"
    using strip_underscores_set [OF u] by auto
  then show ?thesis
    using parse_float_set [OF p] not_space_comma_V by auto
qed

lemma parse_volts_fields:
  assumes "CHR '','' \<notin> set a" and "CHR '','' \<notin> set b"
  shows "parse_volts (a @ '','' @ b) =
           (case py_float (replace_V b) of None \<Rightarrow> Inl ValueError | Some x \<Rightarrow> Inr x)"
    and "parse_volts (a @ '','' @ b @ '','' @ rest) =
           (case py_float (replace_V b) of None \<Rightarrow> Inl ValueError | Some x \<Rightarrow> Inr x)"
  unfolding parse_volts_def numeric_segment_two [OF assms] numeric_segment_more [OF assms]
  by simp_all

lemma split_not_Nil: "split sep s \<noteq> []"
  by (induction s) (auto split: list.splits)

lemma split_two:
  assumes "sep \<in> set s"
  shows "\<exists>a b rest. split sep s = a # b # rest"
  using assms
proof (induction s)
  case Nil
  then show ?case by simp
next
  case (Cons c cs)
  show ?case
  proof (cases "c = sep")
    case True
    with split_not_Nil [of sep cs] show ?thesis by (cases "split sep cs") auto
  next
    case False
    with Cons.prems have "sep \<in> set cs" by simp
    from Cons.IH [OF this] False show ?thesis by auto
  qed
qed

lemma numeric_segment_some:
  assumes "CHR '','' \<in> set resp"
  shows "\<exists>seg. numeric_segment resp = Inr seg"
  using split_two [OF assms] by (auto simp: numeric_segment_def)

lemma parse_volts_error_kinds:
  assumes "parse_volts resp = Inl e"
  shows "(e = IndexError \<and> CHR '','' \<notin> set resp) \<or> (e = ValueError \<and> CHR '','' \<in> set resp)"
proof (cases "CHR '','' \<in> set resp")
  case True
  from numeric_segment_some [OF this] obtain seg where "numeric_segment resp = Inr seg" ..
  with assms True show ?thesis
    by (auto simp: parse_volts_def split: option.splits)
next
  case False
  with assms show ?thesis
    by (simp add: parse_volts_def numeric_segment_none)
qed

lemma lower_letters:
  assumes "lower c \<in> set ''infinityan''"
  shows "c \<in> set ''inftyaINFTYA''"
  using assms unfolding lower_def
  by (auto split: option.splits if_splits)

lemma parse_float_alphabet:
  assumes "parse_float u = Some x" and "c \<in> set u"
  shows "c \<in> set float_alphabet"
proof -
  let ?r = "snd (parse_sign u)"
  have s: "c = CHR ''-'' \<or> c = CHR ''+'' \<or> c \<in> set ?r"
    using assms(2) by (rule parse_sign_set)
  have "c \<in> set ?r \<Longrightarrow> ?thesis"
  proof -
    assume cr: "c \<in> set ?r"
    consider (special)
        "map lower ?r = ''inf'' \<or> map lower ?r = ''infinity'' \<or> map lower ?r = ''nan''"
      | (number) me where "parse_number ?r = Some me"
      using assms(1) unfolding parse_float_def Let_def
      by (auto split: if_splits option.splits)
    then show ?thesis
    proof cases
      case special
      from cr have "lower c \<in> set (map lower ?r)" by simp
      with special have "lower c \<in> set ''infinityan''" by auto
      from lower_letters [OF this] show ?thesis by (auto simp: float_alphabet_def)
    next
      case number
      from parse_number_set [OF number cr] show ?thesis
        by (auto simp: is_digit_def float_alphabet_def)
    qed
  qed
  moreover have "CHR ''-'' \<in> set float_alphabet" "CHR ''+'' \<in> set float_alphabet"
    by (simp_all add: float_alphabet_def)
  ultimately show ?thesis using s by blast
qed

lemma py_float_alphabet:
  assumes "py_float v = Some x" and "c \<in> set v"
  shows "is_float_space c \<or> c \<in> set float_alphabet"
proof -
  from assms(1) obtain u where u: "strip_underscores (CHR 0x00) (float_strip v) = Some u"
    and p: "parse_float u = Some x"
    unfolding py_float_def by (auto split: option.splits)
  from set_float_strip [OF assms(2)] have "is_float_space c \<or> c \<in> set (float_strip v)" .
  then have "is_float_space c \<or> c = CHR ''_'' \<or> c \<in> set u"
    using strip_underscores_set [OF u] by auto
  moreover have "CHR ''_'' \<in> set float_alphabet"
    by (simp add: float_alphabet_def)
  ultimately show ?thesis
    using parse_float_alphabet [OF p] by blast
qed

lemma foreign_character:
  assumes "c \<in> set b" and "c \<noteq> CHR ''V''" and "c \<notin> set float_alphabet"
    and "\<not> is_float_space c"
  shows "py_float (replace_V b) = None"
proof (cases "py_float (replace_V b)")
  case None
  then show ?thesis .
next
  case (Some x)
  from assms(1,2) have "c \<in> set (replace_V b)" by (simp add: replace_V_def)
  from py_float_alphabet [OF Some this] assms(3,4) show ?thesis by simp
qed

lemma spec_parsed_measurement_segment:
  "spec_parsed_measurement resp =
     (case spec_numeric_segment resp of
        None \<Rightarrow> Inl IndexError
      | Some t \<Rightarrow> (case py_float t of None \<Rightarrow> Inl ValueError | Some x \<Rightarrow> Inr x))"
proof -
  define d where "d = dropWhile (\<lambda>c. c \<noteq> CHR '','') resp"
  show ?thesis
    unfolding spec_parsed_measurement_def spec_numeric_segment_def d_def [symmetric]
    by (cases d) (simp_all add: Let_def)
qed

section \<open>Evaluation on given texts and numbers\<close>

lemmas text_eval =
  strip_def is_space_def numeric_segment_def replace_V_def parse_volts_def
  py_float_def float_strip_def is_float_space_def parse_float_def parse_sign_def
  lower_def parse_number_def is_digit_def digits_val_def digit_val_def is_letter_def

lemmas float_eval =
  pow10_def round64_def ilog2_def bit_length.simps pow2_def round_half_even_def
  to_millivolts_def is_zero_def fdiv_def compute_resistance_def R_def Let_def

lemmas effect_eval =
  and_then_def inst_call_def print_def sleep_def close_def report_def report_main_def
  is_exception_def start_def queries_def set_up_commands_def

lemmas all_eval = text_eval float_eval effect_eval measure_def iteration_def set_up_def

section \<open>The parsing step\<close>

text \<open>
  C1. A response \<open>ch,vV\<close>, where \<open>ch\<close> holds no comma and \<open>float\<close> accepts \<open>v\<close>, parses
  to the float of \<open>v\<close>, whatever \<open>ch\<close> is, both as it is and after \<open>strip()\<close>. The unit
  letter is the capital V that \<open>replace\<close> removes.
\<close>

theorem parse_volts_well_formed:
  assumes "CHR '','' \<notin> set ch" and "py_float v = Some x"
  shows "parse_volts (ch @ '','' @ v @ ''V'') = Inr x \<and>
         parse_volts (strip (ch @ '','' @ v @ ''V'')) = Inr x"
proof -
  have v: "CHR '','' \<notin> set v" "CHR ''V'' \<notin> set v"
    using py_float_chars [OF assms(2)] by auto
  have seg: "replace_V (v @ ''V'') = v"
    using v(2) by (rule replace_V_unit)
  have field: "CHR '','' \<notin> set (v @ ''V'')"
    using v(1) by simp
  have one: "parse_volts (c @ '','' @ v @ ''V'') = Inr x" if "CHR '','' \<notin> set c" for c
    using parse_volts_fields(1) [OF that field] seg assms(2) by simp
  have "strip (ch @ '','' @ v @ ''V'') = dropWhile is_space ch @ '','' @ v @ ''V''"
    using strip_last [of "CHR ''V''" "ch @ '','' @ v"] not_space_comma_V
    by (simp add: dropWhile_append3 not_space_comma_V)
  moreover have "CHR '','' \<notin> set (dropWhile is_space ch)"
    using assms(1) by (auto dest: set_dropWhileD)
  ultimately show ?thesis using one [OF assms(1)] one by simp
qed

theorem parse_volts_well_formed_witness:
  "CHR '','' \<notin> set ''C1'' \<and>
   py_float ''1.234'' = Some (Finite False (5557441940175192 / 2 ^ 52)) \<and>
   parse_volts ''C1,1.234V'' = Inr (Finite False (5557441940175192 / 2 ^ 52)) \<and>
   parse_volts (strip ''C1,1.234V'') = Inr (Finite False (5557441940175192 / 2 ^ 52))"
proof -
  have h1: "CHR '','' \<notin> set ''C1''" by simp
  have h2: "py_float ''1.234'' = Some (Finite False (5557441940175192 / 2 ^ 52))"
    by (simp add: text_eval float_eval)
  from parse_volts_well_formed [OF h1 h2] h1 h2 show ?thesis by simp
qed

text \<open>
  With another unit letter the same value text is refused: \<open>float\<close> accepts \<open>1.5\<close>, and
  the response \<open>C1,1.5A\<close> raises \<open>ValueError\<close>. So does \<open>C1,x,1.5V\<close>, where a comma
  stands in what precedes the value.
\<close>

theorem other_unit_letter_counterexample:
  "py_float ''1.5'' = Some (Finite False (3 / 2)) \<and>
   parse_volts (''C1'' @ '','' @ ''1.5'' @ ''A'') = Inl ValueError \<and>
   parse_volts (''C1,x'' @ '','' @ ''1.5'' @ ''V'') = Inl ValueError"
  by (simp add: text_eval float_eval)

text \<open>
  C2. A response without a comma raises \<open>IndexError\<close>, also after \<open>strip()\<close>. A response
  whose second field, with every V removed, is refused by \<open>float\<close> raises \<open>ValueError\<close>;
  it is refused whenever the field holds a character other than V that is neither
  whitespace nor in the alphabet of float texts. There is no other failure:
  \<open>IndexError\<close> comes from a response without a comma only, \<open>ValueError\<close> from one with a
  comma only.
\<close>

theorem parse_volts_failure:
  "(CHR '','' \<notin> set resp \<longrightarrow>
      parse_volts resp = Inl IndexError \<and> parse_volts (strip resp) = Inl IndexError) \<and>
   (CHR '','' \<notin> set a \<and> CHR '','' \<notin> set b \<and> py_float (replace_V b) = None \<longrightarrow>
      parse_volts (a @ '','' @ b) = Inl ValueError \<and>
      parse_volts (a @ '','' @ b @ '','' @ rest) = Inl ValueError) \<and>
   (CHR '','' \<notin> set a \<and> CHR '','' \<notin> set b \<and> c \<in> set b \<and> c \<noteq> CHR ''V'' \<and>
    c \<notin> set float_alphabet \<and> \<not> is_float_space c \<longrightarrow>
      parse_volts (a @ '','' @ b) = Inl ValueError \<and>
      parse_volts (a @ '','' @ b @ '','' @ rest) = Inl ValueError) \<and>
   (parse_volts resp = Inl e \<longrightarrow>
      (e = IndexError \<and> CHR '','' \<notin> set resp) \<or> (e = ValueError \<and> CHR '','' \<in> set resp))"
proof (intro conjI impI)
  assume n: "CHR '','' \<notin> set resp"
  then show "parse_volts resp = Inl IndexError"
    by (simp add: parse_volts_def numeric_segment_none)
  from n set_strip_subset [of resp] have "CHR '','' \<notin> set (strip resp)" by auto
  then show "parse_volts (strip resp) = Inl IndexError"
    by (simp add: parse_volts_def numeric_segment_none)
next
  assume h: "CHR '','' \<notin> set a \<and> CHR '','' \<notin> set b \<and> py_float (replace_V b) = None"
  then show "parse_volts (a @ '','' @ b) = Inl ValueError"
    using parse_volts_fields(1) [of a b] by simp
  from h show "parse_volts (a @ '','' @ b @ '','' @ rest) = Inl ValueError"
    using parse_volts_fields(2) [of a b rest] by simp
next
  assume h: "CHR '','' \<notin> set a \<and> CHR '','' \<notin> set b \<and> c \<in> set b \<and> c \<noteq> CHR ''V'' \<and>
    c \<notin> set float_alphabet \<and> \<not> is_float_space c"
  then have f: "py_float (replace_V b) = None"
    using foreign_character [of c b] by simp
  with h show "parse_volts (a @ '','' @ b) = Inl ValueError"
    using parse_volts_fields(1) [of a b] by simp
  from h f show "parse_volts (a @ '','' @ b @ '','' @ rest) = Inl ValueError"
    using parse_volts_fields(2) [of a b rest] by simp
next
  assume "parse_volts resp = Inl e"
  then show "(e = IndexError \<and> CHR '','' \<notin> set resp) \<or> (e = ValueError \<and> CHR '','' \<in> set resp)"
    by (rule parse_volts_error_kinds)
qed

theorem parse_volts_failure_witness:
  "CHR '','' \<notin> set ''C1 BADVAL'' \<and>
   parse_volts ''C1 BADVAL'' = Inl IndexError \<and>
   CHR '','' \<notin> set ''C1'' \<and> CHR '','' \<notin> set ''BADVAL'' \<and>
   py_float (replace_V ''BADVAL'') = None \<and>
   CHR ''B'' \<in> set ''BADVAL'' \<and> CHR ''B'' \<notin> set float_alphabet \<and>
   \<not> is_float_space (CHR ''B'') \<and>
   parse_volts ''C1,BADVAL'' = Inl ValueError \<and>
   parse_volts ''C1,BADVAL,1.0V'' = Inl ValueError"
proof -
  have h1: "CHR '','' \<notin> set ''C1 BADVAL''" by simp
  have h2: "CHR '','' \<notin> set ''C1'' \<and> CHR '','' \<notin> set ''BADVAL'' \<and>
            py_float (replace_V ''BADVAL'') = None"
    by (simp add: text_eval)
  have h3: "CHR ''B'' \<in> set ''BADVAL'' \<and> CHR ''B'' \<noteq> CHR ''V'' \<and>
            CHR ''B'' \<notin> set float_alphabet \<and> \<not> is_float_space (CHR ''B'')"
    by (simp add: float_alphabet_def is_float_space_def)
  have h4: "parse_volts ''C1 BADVAL'' = Inl IndexError"
    by (simp add: text_eval)
  from parse_volts_failure
         [of "''C1 BADVAL''" "''C1''" "''BADVAL''" "''1.0V''" "CHR ''B''" IndexError]
       h1 h2 h3 h4
  show ?thesis by simp
qed

text \<open>
  With the numeric segment read as the whole text after the first comma less one
  trailing unit letter, there are responses whose segment \<open>float\<close> refuses and which
  parse all the same: \<open>C1,INVF\<close> to infinity and \<open>C1,1.5V,2\<close> to 1.5.
\<close>

theorem unparseable_segment_counterexample:
  "spec_numeric_segment ''C1,INVF'' = Some ''INV'' \<and> py_float ''INV'' = None \<and>
   parse_volts ''C1,INVF'' = Inr (Infinity False) \<and>
   spec_numeric_segment ''C1,1.5V,2'' = Some ''1.5V,2'' \<and> py_float ''1.5V,2'' = None \<and>
   parse_volts ''C1,1.5V,2'' = Inr (Finite False (3 / 2))"
  by (simp add: text_eval float_eval spec_numeric_segment_def)

text \<open>
  C3. The parsed measurement is the float of the second comma-separated field with every
  V removed: the text between the first comma and the second one, or the end of the
  response when there is no second comma.
\<close>

theorem parsed_measurement_second_field:
  assumes "CHR '','' \<notin> set a" and "CHR '','' \<notin> set b"
  shows "parse_volts (a @ '','' @ b) =
           (case py_float (replace_V b) of None \<Rightarrow> Inl ValueError | Some x \<Rightarrow> Inr x) \<and>
         parse_volts (a @ '','' @ b @ '','' @ rest) =
           (case py_float (replace_V b) of None \<Rightarrow> Inl ValueError | Some x \<Rightarrow> Inr x)"
  using parse_volts_fields [OF assms] by simp

theorem parsed_measurement_second_field_witness:
  "CHR '','' \<notin> set ''C1'' \<and> CHR '','' \<notin> set ''1V5V'' \<and>
   py_float (replace_V ''1V5V'') = Some (Finite False 15) \<and>
   parse_volts ''C1,1V5V'' = Inr (Finite False 15) \<and>
   parse_volts ''C1,1V5V,2.0V'' = Inr (Finite False 15)"
proof -
  have h1: "CHR '','' \<notin> set ''C1''" and h2: "CHR '','' \<notin> set ''1V5V''" by simp_all
  have h3: "py_float (replace_V ''1V5V'') = Some (Finite False 15)"
    by (simp add: text_eval float_eval)
  from parsed_measurement_second_field [OF h1 h2, of "''2.0V''"] h1 h2 h3
  show ?thesis by simp
qed

text \<open>
  The whole text after the first comma, less one trailing letter, is another text when
  the response has a second comma or a V before the end: the program reads 1.5 and 15
  where that text is no number.
\<close>

theorem text_after_first_comma_counterexample:
  "parse_volts ''C1,1.5V,2'' = Inr (Finite False (3 / 2)) \<and>
   spec_parsed_measurement ''C1,1.5V,2'' = Inl ValueError \<and>
   parse_volts ''C1,1.5V,2'' \<noteq> spec_parsed_measurement ''C1,1.5V,2'' \<and>
   parse_volts ''C1,1V5V'' = Inr (Finite False 15) \<and>
   spec_parsed_measurement ''C1,1V5V'' = Inl ValueError"
  by (simp add: text_eval float_eval spec_parsed_measurement_def)

section \<open>Resistance and millivolts\<close>

lemma fdiv_nonzero: "\<not> is_zero y \<Longrightarrow> fdiv x y = Inr (fdiv_ieee x y)"
  by (simp add: fdiv_def)

lemma measure_Inr:
  assumes "measure rms_c1 mean_c1 rms_c2 mean_c2 = Inr (v1, v2, v3, v4, rs)"
  shows "\<exists>a b c d. parse_volts rms_c1 = Inr a \<and> parse_volts mean_c1 = Inr b \<and>
           parse_volts rms_c2 = Inr c \<and> parse_volts mean_c2 = Inr d \<and>
           v1 = to_millivolts a \<and> v2 = to_millivolts b \<and>
           v3 = to_millivolts c \<and> v4 = to_millivolts d \<and>
           compute_resistance v2 v4 R = Inr rs"
  using assms unfolding measure_def Let_def
  by (auto split: sum.splits)

lemma measure_example:
  "measure ''C1,0.6V'' ''C1,0.5V'' ''C2,0.3V'' ''C2,0.25V'' =
     Inr (Finite False 600, Finite False 500, Finite False 300, Finite False 250, Finite False 20)"
  by (simp add: measure_def text_eval float_eval)

text \<open>
  C4. With a divisor that is not zero, \<open>compute_resistance x y r\<close> is the float product
  of the float quotient \<open>x / y\<close> and \<open>r\<close>; for 0.5, 0.25 and 10.0 it is 20.0. The sensor
  resistance of one measurement is this value for the two mean voltages in millivolts
  and 10.0.
\<close>

theorem compute_resistance_value:
  "(\<not> is_zero y \<longrightarrow>
      (\<exists>q. fdiv x y = Inr q \<and> compute_resistance x y r = Inr (fmul q r))) \<and>
   compute_resistance (Finite False (1 / 2)) (Finite False (1 / 4)) (Finite False 10)
     = Inr (Finite False 20) \<and>
   (measure rms_c1 mean_c1 rms_c2 mean_c2 = Inr (v1, v2, v3, v4, r_sensor) \<longrightarrow>
      (\<exists>b d. parse_volts mean_c1 = Inr b \<and> parse_volts mean_c2 = Inr d \<and>
             compute_resistance (to_millivolts b) (to_millivolts d) (Finite False 10)
               = Inr r_sensor))"
proof (intro conjI impI)
  assume "\<not> is_zero y"
  then show "\<exists>q. fdiv x y = Inr q \<and> compute_resistance x y r = Inr (fmul q r)"
    by (simp add: compute_resistance_def fdiv_nonzero)
next
  show "compute_resistance (Finite False (1 / 2)) (Finite False (1 / 4)) (Finite False 10)
          = Inr (Finite False 20)"
    by (simp add: float_eval)
next
  assume "measure rms_c1 mean_c1 rms_c2 mean_c2 = Inr (v1, v2, v3, v4, r_sensor)"
  from measure_Inr [OF this] show
    "\<exists>b d. parse_volts mean_c1 = Inr b \<and> parse_volts mean_c2 = Inr d \<and>
       compute_resistance (to_millivolts b) (to_millivolts d) (Finite False 10) = Inr r_sensor"
    by (auto simp: R_def)
qed

theorem compute_resistance_value_witness:
  "\<not> is_zero (Finite False 250) \<and>
   fdiv (Finite False 500) (Finite False 250) = Inr (Finite False 2) \<and>
   compute_resistance (Finite False 500) (Finite False 250) (Finite False 10)
     = Inr (Finite False 20) \<and>
   measure ''C1,0.6V'' ''C1,0.5V'' ''C2,0.3V'' ''C2,0.25V'' =
     Inr (Finite False 600, Finite False 500, Finite False 300, Finite False 250, Finite False 20) \<and>
   (\<exists>b d. parse_volts ''C1,0.5V'' = Inr b \<and> parse_volts ''C2,0.25V'' = Inr d \<and>
          compute_resistance (to_millivolts b) (to_millivolts d) (Finite False 10)
            = Inr (Finite False 20))"
proof -
  have h1: "\<not> is_zero (Finite False 250)" by (simp add: is_zero_def)
  have h2: "fdiv (Finite False 500) (Finite False 250) = Inr (Finite False 2)"
    by (simp add: float_eval)
  have h3: "fmul (Finite False 2) (Finite False 10) = Finite False 20"
    by (simp add: float_eval)
  note h4 = measure_example
  from compute_resistance_value [of "Finite False 250" "Finite False 500" "Finite False 10"
      "''C1,0.6V''" "''C1,0.5V''" "''C2,0.3V''" "''C2,0.25V''"
      "Finite False 600" "Finite False 500" "Finite False 300" "Finite False 250"
      "Finite False 20"] h1 h2 h3 h4
  show ?thesis by auto
qed

text \<open>
  C5. A divisor that is zero, of either sign, makes \<open>compute_resistance\<close> raise
  \<open>ZeroDivisionError\<close>, whatever the other two numbers are. In \<open>calculate_resistance\<close> a
  zero current raises \<open>ValueError\<close> before any division, and \<open>None\<close> is returned.
\<close>

theorem compute_resistance_zero_divisor:
  "compute_resistance x (Finite s 0) r = Inl ZeroDivisionError \<and>
   calculate_resistance dev (Finite s 0) st = (Inr None, print (General_Error ValueError) st)"
  by (simp add: compute_resistance_def fdiv_def is_zero_def calculate_resistance_def
      calculate_resistance_body_def is_exception_def)

text \<open>
  C6. Multiplying by 1000: the float 1.234 gives 1234.0 and 0.0 gives 0.0. The response
  \<open>C1,0.123V\<close> parses to the float 0.123, which gives 123.0, the value that one pass of
  the loop of \<open>continuous_dc_average\<close> prints.
\<close>

theorem millivolts_examples:
  "py_float ''1.234'' = Some (Finite False (5557441940175192 / 2 ^ 52)) \<and>
   to_millivolts (Finite False (5557441940175192 / 2 ^ 52)) = Finite False 1234 \<and>
   py_float ''0.0'' = Some (Finite False 0) \<and>
   to_millivolts (Finite False 0) = Finite False 0 \<and>
   py_float ''0.123'' = Some (Finite False (8863084066665136 / 2 ^ 56)) \<and>
   parse_volts (strip ''C1,0.123V'') = Inr (Finite False (8863084066665136 / 2 ^ 56)) \<and>
   to_millivolts (Finite False (8863084066665136 / 2 ^ 56)) = Finite False 123 \<and>
   dc_average_iteration steady start =
     (Inr (), \<lparr>calls = 1, sent = [''C1:PAVA? MEAN''], printed = [Mean (Finite False 123)],
               slept = 100, closed = 0\<rparr>)"
  by (simp add: text_eval float_eval dc_average_iteration_def effect_eval steady_def)

section \<open>The polling loop\<close>

lemma parse_volts_errors:
  "parse_volts r = Inl e \<Longrightarrow> e = IndexError \<or> e = ValueError"
  by (auto simp: parse_volts_def numeric_segment_def split: sum.splits list.splits option.splits)

lemma measure_parse_error:
  assumes "isl (parse_volts r1) \<or> isl (parse_volts r2) \<or> isl (parse_volts r3)
           \<or> isl (parse_volts r4)"
  shows "measure r1 r2 r3 r4 = Inl IndexError \<or> measure r1 r2 r3 r4 = Inl ValueError"
  using assms parse_volts_errors
  unfolding measure_def by (auto split: sum.splits simp: isl_def)

lemma iteration_answers:
  assumes "dev (calls s) = Answer r1" and "dev (Suc (calls s)) = Answer r2"
    and "dev (Suc (Suc (calls s))) = Answer r3"
    and "dev (Suc (Suc (Suc (calls s)))) = Answer r4"
  shows "iteration dev s =
    (case measure (strip r1) (strip r2) (strip r3) (strip r4) of
       Inl e \<Rightarrow>
         (if e = IndexError \<or> e = ValueError then
            (Inr (), s\<lparr>calls := calls s + 4, sent := sent s @ queries,
                       printed := printed s @
                         [Unexpected_Response (strip r1) (strip r2) (strip r3) (strip r4)]\<rparr>)
          else (Inl e, s\<lparr>calls := calls s + 4, sent := sent s @ queries\<rparr>))
     | Inr (v1, v2, v3, v4, r) \<Rightarrow>
         (Inr (), s\<lparr>calls := calls s + 4, sent := sent s @ queries,
                    printed := printed s @ [Readings v1 v2 v3 v4 r],
                    slept := slept s + 1000\<rparr>))"
  using assms
  by (simp add: iteration_def and_then_def inst_call_def print_def sleep_def queries_def
      split: sum.splits prod.splits)

lemma poll_loop_next: "iteration dev s = (Inr u, s') \<Longrightarrow> poll_loop dev s = poll_loop dev s'"
  by (subst poll_loop.simps) simp

lemma poll_loop_exit: "iteration dev s = (Inl e, s') \<Longrightarrow> poll_loop dev s = Some (e, s')"
  by (subst poll_loop.simps) simp

lemma iteration_first_query_raises:
  assumes "dev (calls s) = Raise e"
  shows "iteration dev s =
           (Inl e, s\<lparr>calls := calls s + 1, sent := sent s @ [''C1:PAVA? RMS'']\<rparr>)"
  using assms by (simp add: iteration_def and_then_def inst_call_def)

text \<open>
  C7. When the four queries of a pass are answered and one of the answers does not
  parse, the pass prints the four answers as unexpected and ends without an exception,
  and the loop is what its body does from the state \<open>s'\<close> after that pass. A pass from
  \<open>s'\<close> whose four answers can be measured prints the readings and pauses as any other;
  when the call after it raises, the loop ends there with that exception, and the
  unexpected answers and the readings are what was printed.
\<close>

theorem parse_failure_skips_iteration:
  assumes "dev (calls s) = Answer r1" and "dev (Suc (calls s)) = Answer r2"
    and "dev (Suc (Suc (calls s))) = Answer r3"
    and "dev (Suc (Suc (Suc (calls s)))) = Answer r4"
    and "isl (parse_volts (strip r1)) \<or> isl (parse_volts (strip r2)) \<or>
         isl (parse_volts (strip r3)) \<or> isl (parse_volts (strip r4))"
    and "s' = s\<lparr>calls := calls s + 4, sent := sent s @ queries,
                  printed := printed s @
                    [Unexpected_Response (strip r1) (strip r2) (strip r3) (strip r4)]\<rparr>"
  shows "iteration dev s = (Inr (), s') \<and> poll_loop dev s = poll_loop dev s' \<and>
         (\<forall>q1 q2 q3 q4 v1 v2 v3 v4 r.
            dev (calls s') = Answer q1 \<and> dev (Suc (calls s')) = Answer q2 \<and>
            dev (Suc (Suc (calls s'))) = Answer q3 \<and>
            dev (Suc (Suc (Suc (calls s')))) = Answer q4 \<and>
            measure (strip q1) (strip q2) (strip q3) (strip q4) = Inr (v1, v2, v3, v4, r) \<longrightarrow>
            iteration dev s' =
              (Inr (), s'\<lparr>calls := calls s' + 4, sent := sent s' @ queries,
                           printed := printed s' @ [Readings v1 v2 v3 v4 r],
                           slept := slept s' + 1000\<rparr>)) \<and>
         poll_loop dev s =
           (case iteration dev s' of
              (Inl e, t) \<Rightarrow> Some (e, t)
            | (Inr u, t) \<Rightarrow> poll_loop dev t) \<and>
         (\<forall>q1 q2 q3 q4 v1 v2 v3 v4 r e.
            dev (calls s') = Answer q1 \<and> dev (Suc (calls s')) = Answer q2 \<and>
            dev (Suc (Suc (calls s'))) = Answer q3 \<and>
            dev (Suc (Suc (Suc (calls s')))) = Answer q4 \<and>
            measure (strip q1) (strip q2) (strip q3) (strip q4) = Inr (v1, v2, v3, v4, r) \<and>
            dev (Suc (Suc (Suc (Suc (calls s'))))) = Raise e \<longrightarrow>
            poll_loop dev s =
              Some (e, s\<lparr>calls := calls s + 9,
                          sent := sent s @ queries @ queries @ [''C1:PAVA? RMS''],
                          printed := printed s @
                            [Unexpected_Response (strip r1) (strip r2) (strip r3) (strip r4),
                             Readings v1 v2 v3 v4 r],
                          slept := slept s + 1000\<rparr>))"
proof (intro conjI allI impI)
  from measure_parse_error [OF assms(5)]
  show it: "iteration dev s = (Inr (), s')"
    unfolding iteration_answers [OF assms(1-4)] assms(6) by auto
  then show nx: "poll_loop dev s = poll_loop dev s'" by (rule poll_loop_next)
  show "poll_loop dev s =
           (case iteration dev s' of
              (Inl e, t) \<Rightarrow> Some (e, t)
            | (Inr u, t) \<Rightarrow> poll_loop dev t)"
    unfolding nx by (rule poll_loop.simps)
next
  fix q1 q2 q3 q4 v1 v2 v3 v4 r
  assume h: "dev (calls s') = Answer q1 \<and> dev (Suc (calls s')) = Answer q2 \<and>
            dev (Suc (Suc (calls s'))) = Answer q3 \<and>
            dev (Suc (Suc (Suc (calls s')))) = Answer q4 \<and>
            measure (strip q1) (strip q2) (strip q3) (strip q4) = Inr (v1, v2, v3, v4, r)"
  then show "iteration dev s' =
              (Inr (), s'\<lparr>calls := calls s' + 4, sent := sent s' @ queries,
                           printed := printed s' @ [Readings v1 v2 v3 v4 r],
                           slept := slept s' + 1000\<rparr>)"
    using iteration_answers [of dev s' q1 q2 q3 q4] by simp
next
  fix q1 q2 q3 q4 v1 v2 v3 v4 r e
  assume h: "dev (calls s') = Answer q1 \<and> dev (Suc (calls s')) = Answer q2 \<and>
            dev (Suc (Suc (calls s'))) = Answer q3 \<and>
            dev (Suc (Suc (Suc (calls s')))) = Answer q4 \<and>
            measure (strip q1) (strip q2) (strip q3) (strip q4) = Inr (v1, v2, v3, v4, r) \<and>
            dev (Suc (Suc (Suc (Suc (calls s'))))) = Raise e"
  define s2 where "s2 = s'\<lparr>calls := calls s' + 4, sent := sent s' @ queries,
                           printed := printed s' @ [Readings v1 v2 v3 v4 r],
                           slept := slept s' + 1000\<rparr>"
  from measure_parse_error [OF assms(5)]
  have i1: "iteration dev s = (Inr (), s')"
    unfolding iteration_answers [OF assms(1-4)] assms(6) by auto
  have i2: "iteration dev s' = (Inr (), s2)"
    using h iteration_answers [of dev s' q1 q2 q3 q4] by (simp add: s2_def)
  have "dev (calls s2) = Raise e" using h by (simp add: s2_def eval_nat_numeral)
  from iteration_first_query_raises [of dev s2 e, OF this]
  have i3: "iteration dev s2 =
      (Inl e, s2\<lparr>calls := calls s2 + 1, sent := sent s2 @ [''C1:PAVA? RMS'']\<rparr>)" .
  have "poll_loop dev s =
      Some (e, s2\<lparr>calls := calls s2 + 1, sent := sent s2 @ [''C1:PAVA? RMS'']\<rparr>)"
    using poll_loop_next [OF i1] poll_loop_next [OF i2] poll_loop_exit [OF i3] by simp
  then show "poll_loop dev s =
              Some (e, s\<lparr>calls := calls s + 9,
                          sent := sent s @ queries @ queries @ [''C1:PAVA? RMS''],
                          printed := printed s @
                            [Unexpected_Response (strip r1) (strip r2) (strip r3) (strip r4),
                             Readings v1 v2 v3 v4 r],
                          slept := slept s + 1000\<rparr>)"
    by (simp add: s2_def assms(6))
qed

theorem parse_failure_skips_iteration_witness:
  "iteration bad_good_interrupted start =
     (Inr (), \<lparr>calls = 4, sent = queries,
               printed = [Unexpected_Response ''C1,BADVAL'' ''C1,0.5V'' ''C1,0.5V'' ''C1,0.5V''],
               slept = 0, closed = 0\<rparr>) \<and>
   iteration bad_good_interrupted
     \<lparr>calls = 4, sent = queries,
      printed = [Unexpected_Response ''C1,BADVAL'' ''C1,0.5V'' ''C1,0.5V'' ''C1,0.5V''],
      slept = 0, closed = 0\<rparr> =
     (Inr (), \<lparr>calls = 8, sent = queries @ queries,
               printed = [Unexpected_Response ''C1,BADVAL'' ''C1,0.5V'' ''C1,0.5V'' ''C1,0.5V'',
                          Readings (Finite False 500) (Finite False 500) (Finite False 500)
                            (Finite False 500) (Finite False 10)],
               slept = 1000, closed = 0\<rparr>) \<and>
   poll_loop bad_good_interrupted start =
     Some (KeyboardInterrupt,
           \<lparr>calls = 9, sent = queries @ queries @ [''C1:PAVA? RMS''],
            printed = [Unexpected_Response ''C1,BADVAL'' ''C1,0.5V'' ''C1,0.5V'' ''C1,0.5V'',
                       Readings (Finite False 500) (Finite False 500) (Finite False 500)
                         (Finite False 500) (Finite False 10)],
            slept = 1000, closed = 0\<rparr>)"
proof -
  let ?s' = "\<lparr>calls = 4, sent = queries,
      printed = [Unexpected_Response ''C1,BADVAL'' ''C1,0.5V'' ''C1,0.5V'' ''C1,0.5V''],
      slept = 0, closed = 0\<rparr>"
  have a: "bad_good_interrupted (calls start) = Answer ''C1,BADVAL''"
    "bad_good_interrupted (Suc (calls start)) = Answer ''C1,0.5V''"
    "bad_good_interrupted (Suc (Suc (calls start))) = Answer ''C1,0.5V''"
    "bad_good_interrupted (Suc (Suc (Suc (calls start)))) = Answer ''C1,0.5V''"
    by (simp_all add: bad_good_interrupted_def start_def)
  have b: "isl (parse_volts (strip ''C1,BADVAL'')) \<or> isl (parse_volts (strip ''C1,0.5V'')) \<or>
         isl (parse_volts (strip ''C1,0.5V'')) \<or> isl (parse_volts (strip ''C1,0.5V''))"
    by (simp add: text_eval)
  have st: "strip ''C1,BADVAL'' = ''C1,BADVAL''" "strip ''C1,0.5V'' = ''C1,0.5V''"
    by (simp_all add: strip_def is_space_def)
  have c: "?s' = start\<lparr>calls := calls start + 4, sent := sent start @ queries,
                  printed := printed start @
                    [Unexpected_Response (strip ''C1,BADVAL'') (strip ''C1,0.5V'')
                       (strip ''C1,0.5V'') (strip ''C1,0.5V'')]\<rparr>"
    by (simp add: start_def st)
  have d: "bad_good_interrupted (calls ?s') = Answer ''C1,0.5V'' \<and>
      bad_good_interrupted (Suc (calls ?s')) = Answer ''C1,0.5V'' \<and>
      bad_good_interrupted (Suc (Suc (calls ?s'))) = Answer ''C1,0.5V'' \<and>
      bad_good_interrupted (Suc (Suc (Suc (calls ?s')))) = Answer ''C1,0.5V'' \<and>
      measure (strip ''C1,0.5V'') (strip ''C1,0.5V'') (strip ''C1,0.5V'') (strip ''C1,0.5V'') =
        Inr (Finite False 500, Finite False 500, Finite False 500, Finite False 500,
             Finite False 10)"
    by (simp add: bad_good_interrupted_def measure_def text_eval float_eval)
  have e: "bad_good_interrupted (Suc (Suc (Suc (Suc (calls ?s'))))) = Raise KeyboardInterrupt"
    by (simp add: bad_good_interrupted_def)
  note th = parse_failure_skips_iteration [OF a b c]
  from th d have its: "iteration bad_good_interrupted start = (Inr (), ?s')"
    "iteration bad_good_interrupted ?s' =
       (Inr (), ?s'\<lparr>calls := calls ?s' + 4, sent := sent ?s' @ queries,
                     printed := printed ?s' @
                       [Readings (Finite False 500) (Finite False 500) (Finite False 500)
                          (Finite False 500) (Finite False 10)],
                     slept := slept ?s' + 1000\<rparr>)"
    by blast+
  from th d e have "poll_loop bad_good_interrupted start =
      Some (KeyboardInterrupt,
            start\<lparr>calls := calls start + 9,
                   sent := sent start @ queries @ queries @ [''C1:PAVA? RMS''],
                   printed := printed start @
                     [Unexpected_Response (strip ''C1,BADVAL'') (strip ''C1,0.5V'')
                        (strip ''C1,0.5V'') (strip ''C1,0.5V''),
                      Readings (Finite False 500) (Finite False 500) (Finite False 500)
                        (Finite False 500) (Finite False 10)],
                   slept := slept start + 1000\<rparr>)"
    by blast
  with its show ?thesis by (simp add: start_def st)
qed

text \<open>
  A mean voltage of zero on channel 2 is not a parse failure: the division raises
  \<open>ZeroDivisionError\<close>, which the inner handler does not take, and the loop ends.
\<close>

lemma to_millivolts_zero: "is_zero x \<Longrightarrow> is_zero (to_millivolts x)"
  by (cases x) (simp_all add: is_zero_def to_millivolts_def round64_def)

lemma zero_mean_c2_raises:
  assumes "dev (calls s) = Answer r1" and "dev (Suc (calls s)) = Answer r2"
    and "dev (Suc (Suc (calls s))) = Answer r3"
    and "dev (Suc (Suc (Suc (calls s)))) = Answer r4"
    and "parse_volts (strip r1) = Inr a" and "parse_volts (strip r2) = Inr b"
    and "parse_volts (strip r3) = Inr c" and "parse_volts (strip r4) = Inr d"
    and "is_zero d"
  shows "poll_loop dev s =
           Some (ZeroDivisionError, s\<lparr>calls := calls s + 4, sent := sent s @ queries\<rparr>)"
proof -
  have "measure (strip r1) (strip r2) (strip r3) (strip r4) = Inl ZeroDivisionError"
    using assms(5-8) to_millivolts_zero [OF assms(9)]
    by (simp add: measure_def compute_resistance_def fdiv_def)
  then have "iteration dev s =
      (Inl ZeroDivisionError, s\<lparr>calls := calls s + 4, sent := sent s @ queries\<rparr>)"
    unfolding iteration_answers [OF assms(1-4)] by simp
  then show ?thesis by (rule poll_loop_exit)
qed

text \<open>
  C8. With the instrument \<open>zero_mean_c2\<close> the first pass raises \<open>ZeroDivisionError\<close>, and
  \<open>continuous_measurement\<close> returns, without an exception, after eight calls with the
  general error printed: the pass is not skipped, the loop is over.
\<close>

theorem zero_mean_ends_polling:
  "iteration zero_mean_c2
     \<lparr>calls = 4, sent = set_up_commands, printed = [], slept = 0, closed = 0\<rparr> =
     (Inl ZeroDivisionError,
      \<lparr>calls = 8, sent = set_up_commands @ queries, printed = [], slept = 0, closed = 0\<rparr>) \<and>
   continuous_measurement zero_mean_c2 start =
     Some (Inr (), \<lparr>calls = 8, sent = set_up_commands @ queries,
                    printed = [General_Error ZeroDivisionError], slept = 0, closed = 0\<rparr>)"
proof -
  let ?s4 = "\<lparr>calls = 4, sent = set_up_commands, printed = [], slept = 0, closed = 0\<rparr>"
  let ?s8 = "\<lparr>calls = 8, sent = set_up_commands @ queries, printed = [], slept = 0,
              closed = 0\<rparr>"
  have it: "iteration zero_mean_c2 ?s4 = (Inl ZeroDivisionError, ?s8)"
    by (simp add: all_eval zero_mean_c2_def)
  have su: "set_up zero_mean_c2 start = (Inr ''C1,1.0V'', ?s4)"
    by (simp add: set_up_def effect_eval zero_mean_c2_def)
  have pl: "poll_loop zero_mean_c2 ?s4 = Some (ZeroDivisionError, ?s8)"
    using it by (rule poll_loop_exit)
  have "continuous_measurement zero_mean_c2 start = Some (report ZeroDivisionError ?s8)"
    by (simp add: continuous_measurement_def su pl)
  with it show ?thesis by (simp add: report_def print_def is_exception_def)
qed

section \<open>Closing the session\<close>

lemma inst_call_closed: "inst_call dev cmd s = (r, s') \<Longrightarrow> closed s' = closed s"
  by (auto simp: inst_call_def Let_def split: reply.splits)

lemma and_then_closed:
  assumes "and_then m f s = (r, s')"
    and "\<And>s r s'. m s = (r, s') \<Longrightarrow> closed s' = closed s"
    and "\<And>a s r s'. f a s = (r, s') \<Longrightarrow> closed s' = closed s"
  shows "closed s' = closed s"
proof (cases "m s")
  case (Pair x s1)
  with assms(2) have c1: "closed s1 = closed s" by simp
  show ?thesis
  proof (cases x)
    case (Inl e)
    with Pair assms(1) have "s' = s1" by (simp add: and_then_def)
    with c1 show ?thesis by simp
  next
    case (Inr a)
    with Pair assms(1) have "f a s1 = (r, s')" by (simp add: and_then_def)
    from assms(3) [OF this] c1 show ?thesis by simp
  qed
qed

lemma iteration_closed: "iteration dev s = (r, s') \<Longrightarrow> closed s' = closed s"
  unfolding iteration_def
  apply (erule and_then_closed, erule inst_call_closed)
  apply (erule and_then_closed, erule inst_call_closed)
  apply (erule and_then_closed, erule inst_call_closed)
  apply (erule and_then_closed, erule inst_call_closed)
  apply (auto simp: print_def sleep_def split: sum.splits if_splits prod.splits)
  done

lemma set_up_closed: "set_up dev s = (r, s') \<Longrightarrow> closed s' = closed s"
  unfolding set_up_def
  apply (erule and_then_closed, erule inst_call_closed)
  apply (erule and_then_closed, erule inst_call_closed)
  apply (erule and_then_closed, erule inst_call_closed)
  apply (erule inst_call_closed)
  done

lemma poll_loop_closed:
  assumes "poll_loop dev s = Some y"
  shows "closed (snd y) = closed s"
proof (rule poll_loop.raw_induct [where P = "\<lambda>dev s y. closed (snd y) = closed s", OF _ assms])
  fix loop :: "device \<Rightarrow> state \<Rightarrow> (py_error \<times> state) option" and dev s y
  assume IH: "\<And>d t z. loop d t = Some z \<Longrightarrow> closed (snd z) = closed t"
    and step: "(case iteration dev s of
                  (Inl e, s') \<Rightarrow> Some (e, s')
                | (Inr u, s') \<Rightarrow> loop dev s') = Some y"
  show "closed (snd y) = closed s"
  proof (cases "iteration dev s")
    case (Pair r s1)
    note c = iteration_closed [OF Pair]
    show ?thesis
    proof (cases r)
      case (Inl e)
      with Pair step have "y = (e, s1)" by simp
      with c show ?thesis by simp
    next
      case (Inr u)
      with Pair step have "loop dev s1 = Some y" by simp
      from IH [OF this] c show ?thesis by simp
    qed
  qed
qed

lemma report_closed: "closed (snd (report e s)) = closed s"
  by (simp add: report_def print_def)

lemma report_main_closed: "closed (snd (report_main e s)) = closed s"
  by (simp add: report_main_def print_def)

lemma report_propagates: "fst (report e s) = Inl e' \<Longrightarrow> e' = e \<and> \<not> is_exception e"
  by (auto simp: report_def split: if_splits)

lemma report_main_propagates:
  "fst (report_main e s) = Inl e' \<Longrightarrow> e' = e \<and> \<not> is_exception e"
  by (auto simp: report_main_def split: if_splits)

lemma continuous_measurement_closed:
  assumes "continuous_measurement dev s = Some (r, s')"
  shows "closed s' = closed s"
proof (cases "set_up dev s")
  case (Pair x s1)
  note c1 = set_up_closed [OF Pair]
  show ?thesis
  proof (cases x)
    case (Inl e)
    with Pair assms have "report e s1 = (r, s')"
      by (simp add: continuous_measurement_def)
    then have "s' = snd (report e s1)" by simp
    with c1 show ?thesis by (simp add: report_closed)
  next
    case (Inr u)
    with Pair assms obtain e s2 where pl: "poll_loop dev s1 = Some (e, s2)"
      and r: "report e s2 = (r, s')"
      by (auto simp: continuous_measurement_def split: option.splits)
    from poll_loop_closed [OF pl] c1 have "closed s2 = closed s" by simp
    moreover from r have "s' = snd (report e s2)" by simp
    ultimately show ?thesis by (simp add: report_closed)
  qed
qed

lemma continuous_measurement_propagates:
  assumes "continuous_measurement dev s = Some (Inl e, s')"
  shows "\<not> is_exception e"
proof (cases "set_up dev s")
  case (Pair x s1)
  show ?thesis
  proof (cases x)
    case (Inl e1)
    with Pair assms have "fst (report e1 s1) = Inl e"
      by (simp add: continuous_measurement_def)
    from report_propagates [OF this] show ?thesis by simp
  next
    case (Inr u)
    with Pair assms obtain e1 s2 where "report e1 s2 = (Inl e, s')"
      by (auto simp: continuous_measurement_def split: option.splits)
    then have "fst (report e1 s2) = Inl e" by simp
    from report_propagates [OF this] show ?thesis by simp
  qed
qed

text \<open>
  Once the session is open, \<open>main\<close> ends only with the session closed exactly once,
  whatever ended the loop, and it ends with an exception only when that is no
  \<open>Exception\<close>.
\<close>

lemma main_closes_once:
  assumes "main None None dev s = Some (r, s')"
  shows "closed s' = Suc (closed s) \<and> (\<forall>e. r = Inl e \<longrightarrow> \<not> is_exception e)"
proof -
  from assms obtain x s1 where cm: "continuous_measurement dev s = Some (x, s1)"
    by (auto simp: main_def split: option.splits)
  note c1 = continuous_measurement_closed [OF cm]
  show ?thesis
  proof (cases x)
    case (Inr u)
    with cm assms have "r = Inr ()" and "s' = close s1" by (simp_all add: main_def)
    with c1 show ?thesis by (simp add: close_def)
  next
    case (Inl e)
    with cm assms have r: "r = fst (report_main e s1)"
      and s': "s' = close (snd (report_main e s1))"
      by (simp_all add: main_def)
    from s' c1 have "closed s' = Suc (closed s)"
      by (simp add: close_def report_main_closed)
    moreover have "\<forall>e'. r = Inl e' \<longrightarrow> \<not> is_exception e'"
      using r report_main_propagates [of e s1] by auto
    ultimately show ?thesis by simp
  qed
qed

text \<open>
  A timeout in the second pass: the loop ends there, nothing more is sent, the error is
  printed and the session is closed once.
\<close>

lemma timeout_while_polling:
  "main None None timeout_in_second_pass start =
     Some (Inr (),
       \<lparr>calls = 10,
        sent = set_up_commands @ queries @ [''C1:PAVA? RMS'', ''C1:PAVA? MEAN''],
        printed = [Readings (Finite False 500) (Finite False 500) (Finite False 500)
                     (Finite False 500) (Finite False 10),
                   Visa_IO_Error],
        slept = 1000, closed = 1\<rparr>)"
proof -
  let ?s4 = "\<lparr>calls = 4, sent = set_up_commands, printed = [], slept = 0, closed = 0\<rparr>"
  let ?s8 = "\<lparr>calls = 8, sent = set_up_commands @ queries,
              printed = [Readings (Finite False 500) (Finite False 500) (Finite False 500)
                           (Finite False 500) (Finite False 10)],
              slept = 1000, closed = 0\<rparr>"
  let ?s10 = "\<lparr>calls = 10,
               sent = set_up_commands @ queries @ [''C1:PAVA? RMS'', ''C1:PAVA? MEAN''],
               printed = [Readings (Finite False 500) (Finite False 500) (Finite False 500)
                            (Finite False 500) (Finite False 10)],
               slept = 1000, closed = 0\<rparr>"
  have su: "set_up timeout_in_second_pass start = (Inr ''C1,0.5V'', ?s4)"
    by (simp add: set_up_def effect_eval timeout_in_second_pass_def)
  have i1: "iteration timeout_in_second_pass ?s4 = (Inr (), ?s8)"
    by (simp add: all_eval timeout_in_second_pass_def)
  have i2: "iteration timeout_in_second_pass ?s8 = (Inl VisaIOError, ?s10)"
    by (simp add: iteration_def effect_eval timeout_in_second_pass_def)
  have pl: "poll_loop timeout_in_second_pass ?s4 = Some (VisaIOError, ?s10)"
    using poll_loop_next [OF i1] poll_loop_exit [OF i2] by simp
  have "continuous_measurement timeout_in_second_pass start
               = Some (report VisaIOError ?s10)"
    by (simp add: continuous_measurement_def su pl)
  then show ?thesis by (simp add: main_def report_def print_def close_def)
qed

text \<open>
  C9. When \<open>rm.open_resource\<close> raises \<open>VisaIOError\<close>, \<open>main\<close> prints the error and then
  ends with \<open>UnboundLocalError\<close> from its \<open>finally\<close> clause: no session is closed, and
  the caller gets an exception.
\<close>

theorem open_failure_leaves_inst_unbound:
  "main None (Some VisaIOError) dev s = Some (Inl UnboundLocalError, print Visa_IO_Error s) \<and>
   closed (print Visa_IO_Error s) = closed s"
  by (simp add: main_def report_main_def print_def)

section \<open>What \<open>calculate_resistance\<close> returns on failure\<close>




end
